theory Spec2Isabelle
  imports
    Main
    "HOL-Library.Char_ord"
    "HOL-Library.List_Lexorder"
    "HOL-Library.Product_Lexorder"
    "HOL-Library.AList"
begin

section \<open>The store: two SQLite tables\<close>

text \<open>
  The application \<^verbatim>\<open>src/app.py\<close> keeps its whole state in one SQLite file with two
  tables. A row of \<^verbatim>\<open>activities\<close> is the tuple (name, description, schedule,
  max_participants); a row of \<^verbatim>\<open>activity_registrations\<close> is the tuple
  (activity_name, email). A table is the list of its rows in insertion (rowid) order, and a
  table that has not been created yet is \<open>None\<close>. Text values are byte strings (the UTF-8
  encoding SQLite stores), compared bytewise: this is SQLite's default BINARY collation and
  it is the lexicographic order on \<open>char list\<close>.
\<close>

type_synonym activity_row = "string \<times> string \<times> string \<times> int"
type_synonym registration_row = "string \<times> string"

record db =
  activities :: "activity_row list option"
  activity_registrations :: "registration_row list option"

text \<open>The database file before anything has been created in it.\<close>

definition empty_db :: db where
  "empty_db = \<lparr>activities = None, activity_registrations = None\<rparr>"

text \<open>
  What a handler can raise: FastAPI's \<^verbatim>\<open>HTTPException(status_code, detail)\<close>, and the two
  \<^verbatim>\<open>sqlite3\<close> exceptions the statements of this program can meet: a violated PRIMARY KEY
  (\<^verbatim>\<open>IntegrityError\<close>) and a missing table (\<^verbatim>\<open>OperationalError\<close>).
\<close>

datatype error = HTTPException int string | IntegrityError | OperationalError

text \<open>The value side of \<^verbatim>\<open>DEFAULT_ACTIVITIES\<close> and of the catalog that is returned.\<close>

record activity =
  description :: string
  schedule :: string
  max_participants :: int
  participants :: "string list"

section \<open>The SQL statements\<close>

text \<open>\<^verbatim>\<open>CREATE TABLE IF NOT EXISTS\<close>: an absent table becomes the empty table.\<close>

definition create_table_if_not_exists :: "'r list option \<Rightarrow> 'r list option" where
  "create_table_if_not_exists t = (case t of None \<Rightarrow> Some [] | Some rows \<Rightarrow> Some rows)"

text \<open>\<^verbatim>\<open>cursor.fetchone()\<close>: the first row of a result, or \<^verbatim>\<open>None\<close>.\<close>

definition fetchone :: "'r list \<Rightarrow> 'r option" where
  "fetchone rows = (case rows of [] \<Rightarrow> None | r # _ \<Rightarrow> Some r)"

text \<open>\<^verbatim>\<open>SELECT COUNT(*) FROM activities\<close>\<close>

definition select_count_activities :: "db \<Rightarrow> error + nat" where
  "select_count_activities connection =
     (case activities connection of
        None \<Rightarrow> Inl OperationalError
      | Some rows \<Rightarrow> Inr (length rows))"

text \<open>
  \<^verbatim>\<open>INSERT INTO activities (name, description, schedule, max_participants)\<close>:
  \<^verbatim>\<open>name\<close> is the PRIMARY KEY, so a row whose name is already there is refused.
\<close>

definition insert_activity :: "activity_row \<Rightarrow> db \<Rightarrow> error + db" where
  "insert_activity row connection =
     (case activities connection of
        None \<Rightarrow> Inl OperationalError
      | Some rows \<Rightarrow>
          if fst row \<in> set (map fst rows) then Inl IntegrityError
          else Inr (connection\<lparr>activities := Some (rows @ [row])\<rparr>))"

text \<open>
  \<^verbatim>\<open>INSERT INTO activity_registrations (activity_name, email)\<close>: the PRIMARY KEY is the
  pair. The FOREIGN KEY clause is declared but the program never issues
  \<^verbatim>\<open>PRAGMA foreign_keys = ON\<close>, so SQLite does not check it.
\<close>

definition insert_registration :: "registration_row \<Rightarrow> db \<Rightarrow> error + db" where
  "insert_registration row connection =
     (case activity_registrations connection of
        None \<Rightarrow> Inl OperationalError
      | Some rows \<Rightarrow>
          if row \<in> set rows then Inl IntegrityError
          else Inr (connection\<lparr>activity_registrations := Some (rows @ [row])\<rparr>))"

text \<open>\<^verbatim>\<open>SELECT name FROM activities WHERE name = ?\<close>, then \<^verbatim>\<open>fetchone()\<close>\<close>

definition select_activity_name :: "string \<Rightarrow> db \<Rightarrow> error + string option" where
  "select_activity_name activity_name connection =
     (case activities connection of
        None \<Rightarrow> Inl OperationalError
      | Some rows \<Rightarrow> Inr (fetchone (filter (\<lambda>n. n = activity_name) (map fst rows))))"

text \<open>
  \<^verbatim>\<open>SELECT 1 FROM activity_registrations WHERE activity_name = ? AND email = ?\<close>, then
  \<^verbatim>\<open>fetchone()\<close>
\<close>

definition select_registration :: "string \<Rightarrow> string \<Rightarrow> db \<Rightarrow> error + nat option" where
  "select_registration activity_name email connection =
     (case activity_registrations connection of
        None \<Rightarrow> Inl OperationalError
      | Some rows \<Rightarrow>
          Inr (fetchone (map (\<lambda>r. 1) (filter (\<lambda>r. fst r = activity_name \<and> snd r = email) rows))))"

text \<open>
  \<^verbatim>\<open>DELETE FROM activity_registrations WHERE activity_name = ? AND email = ?\<close>: every matching
  row goes; the result carries \<^verbatim>\<open>rowcount\<close>, the number of rows deleted.
\<close>

definition delete_registration :: "string \<Rightarrow> string \<Rightarrow> db \<Rightarrow> error + (nat \<times> db)" where
  "delete_registration activity_name email connection =
     (case activity_registrations connection of
        None \<Rightarrow> Inl OperationalError
      | Some rows \<Rightarrow>
          Inr (length (filter (\<lambda>r. fst r = activity_name \<and> snd r = email) rows),
               connection\<lparr>activity_registrations :=
                 Some (filter (\<lambda>r. \<not> (fst r = activity_name \<and> snd r = email)) rows)\<rparr>))"

text \<open>
  \<^verbatim>\<open>SELECT name, description, schedule, max_participants FROM activities ORDER BY name\<close>
\<close>

definition select_activities_ordered :: "db \<Rightarrow> error + activity_row list" where
  "select_activities_ordered connection =
     (case activities connection of
        None \<Rightarrow> Inl OperationalError
      | Some rows \<Rightarrow> Inr (sort_key fst rows))"

text \<open>
  \<^verbatim>\<open>SELECT activity_name, email FROM activity_registrations ORDER BY activity_name, email\<close>:
  the order on pairs is lexicographic, first component first.
\<close>

definition select_registrations_ordered :: "db \<Rightarrow> error + registration_row list" where
  "select_registrations_ordered connection =
     (case activity_registrations connection of
        None \<Rightarrow> Inl OperationalError
      | Some rows \<Rightarrow> Inr (sort_key (\<lambda>r. (fst r, snd r)) rows))"

section \<open>The seed data\<close>

text \<open>
  \<^verbatim>\<open>DEFAULT_ACTIVITIES\<close> is a dict literal; Python dicts keep insertion order and
  \<^verbatim>\<open>.items()\<close> walks them in that order, so it is an association list here.
\<close>

definition DEFAULT_ACTIVITIES :: "(string \<times> activity) list" where
  "DEFAULT_ACTIVITIES =
    [(''Chess Club'',
        \<lparr>description = ''Learn strategies and compete in chess tournaments'',
         schedule = ''Fridays, 3:30 PM - 5:00 PM'',
         max_participants = 12,
         participants = [''michael@mergington.edu'', ''daniel@mergington.edu'']\<rparr>),
     (''Programming Class'',
        \<lparr>description = ''Learn programming fundamentals and build software projects'',
         schedule = ''Tuesdays and Thursdays, 3:30 PM - 4:30 PM'',
         max_participants = 20,
         participants = [''emma@mergington.edu'', ''sophia@mergington.edu'']\<rparr>),
     (''Gym Class'',
        \<lparr>description = ''Physical education and sports activities'',
         schedule = ''Mondays, Wednesdays, Fridays, 2:00 PM - 3:00 PM'',
         max_participants = 30,
         participants = [''john@mergington.edu'', ''olivia@mergington.edu'']\<rparr>),
     (''Soccer Team'',
        \<lparr>description = ''Join the school soccer team and compete in matches'',
         schedule = ''Tuesdays and Thursdays, 4:00 PM - 5:30 PM'',
         max_participants = 22,
         participants = [''liam@mergington.edu'', ''noah@mergington.edu'']\<rparr>),
     (''Basketball Team'',
        \<lparr>description = ''Practice and play basketball with the school team'',
         schedule = ''Wednesdays and Fridays, 3:30 PM - 5:00 PM'',
         max_participants = 15,
         participants = [''ava@mergington.edu'', ''mia@mergington.edu'']\<rparr>),
     (''Art Club'',
        \<lparr>description = ''Explore your creativity through painting and drawing'',
         schedule = ''Thursdays, 3:30 PM - 5:00 PM'',
         max_participants = 15,
         participants = [''amelia@mergington.edu'', ''harper@mergington.edu'']\<rparr>),
     (''Drama Club'',
        \<lparr>description = ''Act, direct, and produce plays and performances'',
         schedule = ''Mondays and Wednesdays, 4:00 PM - 5:30 PM'',
         max_participants = 20,
         participants = [''ella@mergington.edu'', ''scarlett@mergington.edu'']\<rparr>),
     (''Math Club'',
        \<lparr>description = ''Solve challenging problems and participate in math competitions'',
         schedule = ''Tuesdays, 3:30 PM - 4:30 PM'',
         max_participants = 10,
         participants = [''james@mergington.edu'', ''benjamin@mergington.edu'']\<rparr>),
     (''Debate Team'',
        \<lparr>description = ''Develop public speaking and argumentation skills'',
         schedule = ''Fridays, 4:00 PM - 5:30 PM'',
         max_participants = 12,
         participants = [''charlotte@mergington.edu'', ''henry@mergington.edu'']\<rparr>)]"

section \<open>Bootstrap: \<^verbatim>\<open>init_db\<close>\<close>

text \<open>The inner loop \<^verbatim>\<open>for email in activity["participants"]\<close>: one INSERT per email.\<close>

fun insert_participants :: "string \<Rightarrow> string list \<Rightarrow> db \<Rightarrow> error + db" where
  "insert_participants activity_name [] connection = Inr connection"
| "insert_participants activity_name (email # emails) connection =
     (case insert_registration (activity_name, email) connection of
        Inl e \<Rightarrow> Inl e
      | Inr connection' \<Rightarrow> insert_participants activity_name emails connection')"

text \<open>
  The outer loop \<^verbatim>\<open>for activity_name, activity in DEFAULT_ACTIVITIES.items()\<close>: the
  activity's row, then its participants' rows. The first exception ends the loop.
\<close>

fun seed_activities :: "(string \<times> activity) list \<Rightarrow> db \<Rightarrow> error + db" where
  "seed_activities [] connection = Inr connection"
| "seed_activities ((activity_name, activity) # rest) connection =
     (case insert_activity
             (activity_name, description activity, schedule activity, max_participants activity)
             connection of
        Inl e \<Rightarrow> Inl e
      | Inr connection' \<Rightarrow>
          (case insert_participants activity_name (participants activity) connection' of
             Inl e \<Rightarrow> Inl e
           | Inr connection'' \<Rightarrow> seed_activities rest connection''))"

text \<open>
  \<^verbatim>\<open>init_db\<close> returns nothing; the model returns whether it raised, and the database
  afterwards. The two CREATE TABLE statements run outside any transaction (the
  \<^verbatim>\<open>sqlite3\<close> module opens one only before INSERT, UPDATE or DELETE), so they stay even
  when a later INSERT raises and the \<^verbatim>\<open>with\<close> block rolls the inserted rows back.
\<close>

definition init_db :: "db \<Rightarrow> (error + unit) \<times> db" where
  "init_db connection =
     (let created =
            \<lparr>activities = create_table_if_not_exists (activities connection),
             activity_registrations =
               create_table_if_not_exists (activity_registrations connection)\<rparr>
      in case select_count_activities created of
           Inl e \<Rightarrow> (Inl e, created)
         | Inr existing_activity_count \<Rightarrow>
             if existing_activity_count = 0 then
               (case seed_activities DEFAULT_ACTIVITIES created of
                  Inl e \<Rightarrow> (Inl e, created)
                | Inr seeded \<Rightarrow> (Inr (), seeded))
             else (Inr (), created))"

section \<open>The read path: \<^verbatim>\<open>load_activities\<close>\<close>

text \<open>
  A Python dict is an association list in insertion order: \<open>AList.update\<close> replaces the
  value of a key that is there, in its place, and appends a new key at the end, as
  \<^verbatim>\<open>d[k] = v\<close> does. \<^verbatim>\<open>d.get(k, default)\<close> is \<open>dict_get\<close>.
\<close>

definition dict_get :: "('k \<times> 'v) list \<Rightarrow> 'k \<Rightarrow> 'v \<Rightarrow> 'v" where
  "dict_get d k dflt = (case map_of d k of None \<Rightarrow> dflt | Some v \<Rightarrow> v)"

text \<open>\<^verbatim>\<open>d.setdefault(k, []).append(v)\<close>\<close>

definition setdefault_append :: "('k \<times> 'v list) list \<Rightarrow> 'k \<Rightarrow> 'v \<Rightarrow> ('k \<times> 'v list) list" where
  "setdefault_append d k v = AList.update k (dict_get d k [] @ [v]) d"

definition load_activities :: "db \<Rightarrow> (error + (string \<times> activity) list) \<times> db" where
  "load_activities connection =
     (case select_activities_ordered connection of
        Inl e \<Rightarrow> (Inl e, connection)
      | Inr activity_rows \<Rightarrow>
          (case select_registrations_ordered connection of
             Inl e \<Rightarrow> (Inl e, connection)
           | Inr registrations \<Rightarrow>
               (let participants_by_activity =
                      foldl (\<lambda>d registration.
                               setdefault_append d (fst registration) (snd registration))
                            [] registrations;
                    catalog =
                      foldl (\<lambda>d row.
                               case row of (row_name, row_description, row_schedule, row_max) \<Rightarrow>
                                 AList.update row_name
                                   \<lparr>description = row_description,
                                    schedule = row_schedule,
                                    max_participants = row_max,
                                    participants =
                                      dict_get participants_by_activity row_name []\<rparr>
                                   d)
                            [] activity_rows
                in (Inr catalog, connection))))"

text \<open>\<^verbatim>\<open>GET /activities\<close>\<close>

definition get_activities :: "db \<Rightarrow> (error + (string \<times> activity) list) \<times> db" where
  "get_activities connection = load_activities connection"

section \<open>The write path\<close>

text \<open>
  Both handlers return a one-entry dict \<^verbatim>\<open>{"message": ...}\<close> or raise. An exception
  leaves the \<^verbatim>\<open>with\<close> block through a rollback, so the database is the one the handler
  was given.
\<close>

text \<open>\<^verbatim>\<open>POST /activities/{activity_name}/signup\<close>\<close>

definition signup_for_activity ::
    "string \<Rightarrow> string \<Rightarrow> db \<Rightarrow> (error + (string \<times> string) list) \<times> db" where
  "signup_for_activity activity_name email connection =
     (case select_activity_name activity_name connection of
        Inl e \<Rightarrow> (Inl e, connection)
      | Inr None \<Rightarrow> (Inl (HTTPException 404 ''Activity not found''), connection)
      | Inr (Some activity) \<Rightarrow>
          (case select_registration activity_name email connection of
             Inl e \<Rightarrow> (Inl e, connection)
           | Inr (Some existing_registration) \<Rightarrow>
               (Inl (HTTPException 400 ''Student is already signed up''), connection)
           | Inr None \<Rightarrow>
               (case insert_registration (activity_name, email) connection of
                  Inl e \<Rightarrow> (Inl e, connection)
                | Inr connection' \<Rightarrow>
                    (Inr [(''message'', ''Signed up '' @ email @ '' for '' @ activity_name)],
                     connection'))))"

text \<open>\<^verbatim>\<open>DELETE /activities/{activity_name}/unregister\<close>\<close>

definition unregister_from_activity ::
    "string \<Rightarrow> string \<Rightarrow> db \<Rightarrow> (error + (string \<times> string) list) \<times> db" where
  "unregister_from_activity activity_name email connection =
     (case select_activity_name activity_name connection of
        Inl e \<Rightarrow> (Inl e, connection)
      | Inr None \<Rightarrow> (Inl (HTTPException 404 ''Activity not found''), connection)
      | Inr (Some activity) \<Rightarrow>
          (case delete_registration activity_name email connection of
             Inl e \<Rightarrow> (Inl e, connection)
           | Inr (rowcount, connection') \<Rightarrow>
               if rowcount = 0 then
                 (Inl (HTTPException 400 ''Student is not signed up for this activity''),
                  connection)
               else
                 (Inr [(''message'', ''Unregistered '' @ email @ '' from '' @ activity_name)],
                  connection')))"

section \<open>Vocabulary of the properties\<close>

text \<open>The rows of a table; a table that does not exist has none.\<close>

definition table_rows :: "'r list option \<Rightarrow> 'r list" where
  "table_rows t = (case t of None \<Rightarrow> [] | Some rows \<Rightarrow> rows)"

text \<open>
  Both tables exist. \<^verbatim>\<open>init_db()\<close> is called at module level, before the application
  serves a request, so every handler runs on such a database.
\<close>

definition tables_created :: "db \<Rightarrow> bool" where
  "tables_created S = (activities S \<noteq> None \<and> activity_registrations S \<noteq> None)"

text \<open>An activity named \<open>A\<close> is in storage.\<close>

definition activity_exists :: "string \<Rightarrow> db \<Rightarrow> bool" where
  "activity_exists A S = (A \<in> set (map fst (table_rows (activities S))))"

text \<open>There is a registration row \<open>(A, e)\<close>.\<close>

definition registered :: "string \<Rightarrow> string \<Rightarrow> db \<Rightarrow> bool" where
  "registered A e S = ((A, e) \<in> set (table_rows (activity_registrations S)))"

text \<open>The number of registration rows of activity \<open>A\<close>.\<close>

definition registration_count :: "string \<Rightarrow> db \<Rightarrow> nat" where
  "registration_count A S =
     length (filter (\<lambda>r. fst r = A) (table_rows (activity_registrations S)))"

text \<open>
  The two PRIMARY KEY declarations of the schema, as properties of a database: no two
  activity rows share a name, and no registration row occurs twice.
\<close>

definition activities_unique :: "db \<Rightarrow> bool" where
  "activities_unique S = distinct (map fst (table_rows (activities S)))"

definition registrations_unique :: "db \<Rightarrow> bool" where
  "registrations_unique S = distinct (table_rows (activity_registrations S))"

text \<open>
  The databases the program can produce: it starts from the empty file and runs the
  bootstrap and the three handlers in any order, with any arguments.
\<close>

inductive reachable :: "db \<Rightarrow> bool" where
  reachable_empty: "reachable empty_db"
| reachable_init_db: "reachable S \<Longrightarrow> reachable (snd (init_db S))"
| reachable_get_activities: "reachable S \<Longrightarrow> reachable (snd (get_activities S))"
| reachable_signup: "reachable S \<Longrightarrow> reachable (snd (signup_for_activity A e S))"
| reachable_unregister: "reachable S \<Longrightarrow> reachable (snd (unregister_from_activity A e S))"

text \<open>
  Reading a response of \<^verbatim>\<open>GET /activities\<close>: the names in the order the mapping lists
  them, and the participant list shown for one activity. An exception has neither.
\<close>

definition catalog_names :: "error + (string \<times> activity) list \<Rightarrow> string list option" where
  "catalog_names response =
     (case response of Inl e \<Rightarrow> None | Inr catalog \<Rightarrow> Some (map fst catalog))"

definition participants_of ::
    "string \<Rightarrow> error + (string \<times> activity) list \<Rightarrow> string list option" where
  "participants_of A response =
     (case response of
        Inl e \<Rightarrow> None
      | Inr catalog \<Rightarrow> map_option participants (map_of catalog A))"

text \<open>
  The catalog as the specification describes it: one entry per activity row, in ascending
  order of name, carrying the row's static fields and, as participants, the emails registered
  for that activity in ascending order (none registered: the empty list).
\<close>

definition catalog_view :: "db \<Rightarrow> (string \<times> activity) list" where
  "catalog_view S =
     map (\<lambda>row. (fst row,
                 \<lparr>description = fst (snd row),
                  schedule = fst (snd (snd row)),
                  max_participants = snd (snd (snd row)),
                  participants =
                    sort (map snd (filter (\<lambda>r. fst r = fst row)
                                     (table_rows (activity_registrations S))))\<rparr>))
         (sort_key fst (table_rows (activities S)))"

text \<open>
  A database the program reaches in which an activity is full: after the bootstrap, eight
  more students sign up for the Math Club (two seeded participants, \<^verbatim>\<open>max_participants\<close> 10).
\<close>

definition math_club_full :: db where
  "math_club_full =
     foldl (\<lambda>S e. snd (signup_for_activity ''Math Club'' e S)) (snd (init_db empty_db))
       [''s1@mergington.edu'', ''s2@mergington.edu'', ''s3@mergington.edu'',
        ''s4@mergington.edu'', ''s5@mergington.edu'', ''s6@mergington.edu'',
        ''s7@mergington.edu'', ''s8@mergington.edu'']"

section \<open>The SQL statements on an existing table\<close>

lemma fetchone_filter_eq:
  "fetchone (filter (\<lambda>n. n = a) xs) = (if a \<in> set xs then Some a else None)"
  by (induction xs) (auto simp: fetchone_def)

lemma fetchone_map_filter:
  "fetchone (map (\<lambda>r. c) (filter P xs)) = (if \<exists>x \<in> set xs. P x then Some c else None)"
  by (induction xs) (auto simp: fetchone_def)

lemma select_activity_name_eq:
  "activities S = Some acts \<Longrightarrow>
   select_activity_name A S = Inr (if A \<in> fst ` set acts then Some A else None)"
  by (simp add: select_activity_name_def fetchone_filter_eq)

lemma select_registration_eq:
  "activity_registrations S = Some regs \<Longrightarrow>
   select_registration A e S = Inr (if (A, e) \<in> set regs then Some 1 else None)"
  by (auto simp: select_registration_def fetchone_map_filter)

lemma filter_not_pair:
  "filter (\<lambda>r. fst r = A \<longrightarrow> snd r \<noteq> e) regs = removeAll (A, e) regs"
  by (induction regs) auto

lemma filter_pair_Nil:
  "(filter (\<lambda>r. fst r = A \<and> snd r = e) regs = []) = ((A, e) \<notin> set regs)"
  by (induction regs) auto

section \<open>The handlers, case by case\<close>

lemma signup_not_found:
  "activities S = Some acts \<Longrightarrow> A \<notin> fst ` set acts \<Longrightarrow>
   signup_for_activity A e S = (Inl (HTTPException 404 ''Activity not found''), S)"
  by (simp add: signup_for_activity_def select_activity_name_eq)

lemma unregister_not_found:
  "activities S = Some acts \<Longrightarrow> A \<notin> fst ` set acts \<Longrightarrow>
   unregister_from_activity A e S = (Inl (HTTPException 404 ''Activity not found''), S)"
  by (simp add: unregister_from_activity_def select_activity_name_eq)

lemma signup_found:
  "activities S = Some acts \<Longrightarrow> A \<in> fst ` set acts \<Longrightarrow>
   activity_registrations S = Some regs \<Longrightarrow>
   signup_for_activity A e S =
     (if (A, e) \<in> set regs
      then (Inl (HTTPException 400 ''Student is already signed up''), S)
      else (Inr [(''message'', ''Signed up '' @ e @ '' for '' @ A)],
            S\<lparr>activity_registrations := Some (regs @ [(A, e)])\<rparr>))"
  by (simp add: signup_for_activity_def select_activity_name_eq select_registration_eq
      insert_registration_def)

lemma unregister_found:
  "activities S = Some acts \<Longrightarrow> A \<in> fst ` set acts \<Longrightarrow>
   activity_registrations S = Some regs \<Longrightarrow>
   unregister_from_activity A e S =
     (if (A, e) \<in> set regs
      then (Inr [(''message'', ''Unregistered '' @ e @ '' from '' @ A)],
            S\<lparr>activity_registrations := Some (removeAll (A, e) regs)\<rparr>)
      else (Inl (HTTPException 400 ''Student is not signed up for this activity''), S))"
  by (simp add: unregister_from_activity_def select_activity_name_eq delete_registration_def
      filter_not_pair filter_pair_Nil)

text \<open>Reading the hypotheses of the claims back into tables.\<close>

lemma tables_createdE:
  assumes "tables_created S"
  obtains acts regs where "activities S = Some acts" and "activity_registrations S = Some regs"
  using assms by (auto simp: tables_created_def)

section \<open>Signup\<close>

text \<open>
  Claim C1. For every activity \<open>A\<close> that exists in storage and every email \<open>e\<close> with no
  registration row \<open>(A, e)\<close>, \<open>signup_for_activity A e\<close> succeeds: it returns the message
  "Signed up e for A" and the database afterwards is the one before with exactly the row
  \<open>(A, e)\<close> added to \<^verbatim>\<open>activity_registrations\<close>. The same call on the resulting database raises
  \<open>HTTPException 400\<close> with detail "Student is already signed up" and leaves that database
  as it is.
\<close>

theorem signup_then_duplicate:
  assumes "tables_created S" and "activity_exists A S" and "\<not> registered A e S"
  shows "signup_for_activity A e S =
           (Inr [(''message'', ''Signed up '' @ e @ '' for '' @ A)],
            S\<lparr>activity_registrations :=
                Some (table_rows (activity_registrations S) @ [(A, e)])\<rparr>)
         \<and> signup_for_activity A e (snd (signup_for_activity A e S)) =
           (Inl (HTTPException 400 ''Student is already signed up''),
            snd (signup_for_activity A e S))"
proof -
  from assms(1) obtain acts regs where
    t: "activities S = Some acts" "activity_registrations S = Some regs"
    by (rule tables_createdE)
  from assms(2) t have a: "A \<in> fst ` set acts"
    by (simp add: activity_exists_def table_rows_def)
  from assms(3) t have r: "(A, e) \<notin> set regs"
    by (simp add: registered_def table_rows_def)
  let ?S' = "S\<lparr>activity_registrations := Some (regs @ [(A, e)])\<rparr>"
  have first: "signup_for_activity A e S =
      (Inr [(''message'', ''Signed up '' @ e @ '' for '' @ A)], ?S')"
    using signup_found [OF t(1) a t(2)] r by simp
  have "signup_for_activity A e ?S' =
      (Inl (HTTPException 400 ''Student is already signed up''), ?S')"
    using signup_found [of ?S' acts A "regs @ [(A, e)]" e] t(1) a by simp
  with first t show ?thesis
    by (simp add: table_rows_def)
qed

theorem signup_then_duplicate_witness:
  "tables_created (snd (init_db empty_db))
   \<and> activity_exists ''Chess Club'' (snd (init_db empty_db))
   \<and> \<not> registered ''Chess Club'' ''test@mergington.edu'' (snd (init_db empty_db))
   \<and> fst (signup_for_activity ''Chess Club'' ''test@mergington.edu'' (snd (init_db empty_db)))
       = Inr [(''message'', ''Signed up test@mergington.edu for Chess Club'')]
   \<and> fst (signup_for_activity ''Chess Club'' ''test@mergington.edu''
         (snd (signup_for_activity ''Chess Club'' ''test@mergington.edu''
            (snd (init_db empty_db)))))
       = Inl (HTTPException 400 ''Student is already signed up'')"
proof -
  have h1: "tables_created (snd (init_db empty_db))" by code_simp
  have h2: "activity_exists ''Chess Club'' (snd (init_db empty_db))" by code_simp
  have h3: "\<not> registered ''Chess Club'' ''test@mergington.edu'' (snd (init_db empty_db))"
    by code_simp
  note both = signup_then_duplicate [OF h1 h2 h3]
  have first: "fst (signup_for_activity ''Chess Club'' ''test@mergington.edu''
      (snd (init_db empty_db)))
    = Inr [(''message'', ''Signed up test@mergington.edu for Chess Club'')]"
    using conjunct1 [OF both] by simp
  have second: "fst (signup_for_activity ''Chess Club'' ''test@mergington.edu''
         (snd (signup_for_activity ''Chess Club'' ''test@mergington.edu''
            (snd (init_db empty_db)))))
       = Inl (HTTPException 400 ''Student is already signed up'')"
    using conjunct2 [OF both] by (simp only: fst_conv)
  from h1 h2 h3 first second show ?thesis by (simp only: simp_thms)
qed

section \<open>Unregister\<close>

text \<open>
  Claim C2. For every activity \<open>A\<close> that exists in storage and every email \<open>e\<close> registered
  for \<open>A\<close>, \<open>unregister_from_activity A e\<close> succeeds once: it returns the message
  "Unregistered e from A", the registrations afterwards are the ones before with the one row
  \<open>(A, e)\<close> taken out (one row fewer, and \<open>(A, e)\<close> is no longer registered), and the same
  call on the resulting database raises \<open>HTTPException 400\<close> with detail "Student is not
  signed up for this activity" and changes nothing. The table obeys its PRIMARY KEY, as every
  table SQLite holds does.
\<close>

theorem unregister_then_again:
  assumes "tables_created S" and "activity_exists A S" and "registered A e S"
    and "registrations_unique S"
  shows "unregister_from_activity A e S =
           (Inr [(''message'', ''Unregistered '' @ e @ '' from '' @ A)],
            S\<lparr>activity_registrations :=
                Some (remove1 (A, e) (table_rows (activity_registrations S)))\<rparr>)
         \<and> length (table_rows (activity_registrations S)) =
             Suc (length (table_rows
                    (activity_registrations (snd (unregister_from_activity A e S)))))
         \<and> \<not> registered A e (snd (unregister_from_activity A e S))
         \<and> unregister_from_activity A e (snd (unregister_from_activity A e S)) =
           (Inl (HTTPException 400 ''Student is not signed up for this activity''),
            snd (unregister_from_activity A e S))"
proof -
  from assms(1) obtain acts regs where
    t: "activities S = Some acts" "activity_registrations S = Some regs"
    by (rule tables_createdE)
  from assms(2) t have a: "A \<in> fst ` set acts"
    by (simp add: activity_exists_def table_rows_def)
  from assms(3) t have r: "(A, e) \<in> set regs"
    by (simp add: registered_def table_rows_def)
  from assms(4) t have d: "distinct regs"
    by (simp add: registrations_unique_def table_rows_def)
  let ?S' = "S\<lparr>activity_registrations := Some (remove1 (A, e) regs)\<rparr>"
  have gone: "(A, e) \<notin> set (remove1 (A, e) regs)"
    using d by simp
  have first: "unregister_from_activity A e S =
      (Inr [(''message'', ''Unregistered '' @ e @ '' from '' @ A)], ?S')"
    using unregister_found [OF t(1) a t(2)] r d
    by (simp add: distinct_remove1_removeAll)
  have second: "unregister_from_activity A e ?S' =
      (Inl (HTTPException 400 ''Student is not signed up for this activity''), ?S')"
    using unregister_found [of ?S' acts A "remove1 (A, e) regs" e] t(1) a gone by simp
  have len: "length regs = Suc (length (remove1 (A, e) regs))"
    using r by (simp add: length_remove1) (cases regs; simp)
  from first second len gone t show ?thesis
    by (simp add: table_rows_def registered_def)
qed

theorem unregister_then_again_witness:
  "tables_created (snd (init_db empty_db))
   \<and> activity_exists ''Chess Club'' (snd (init_db empty_db))
   \<and> registered ''Chess Club'' ''daniel@mergington.edu'' (snd (init_db empty_db))
   \<and> registrations_unique (snd (init_db empty_db))
   \<and> fst (unregister_from_activity ''Chess Club'' ''daniel@mergington.edu''
         (snd (init_db empty_db)))
       = Inr [(''message'', ''Unregistered daniel@mergington.edu from Chess Club'')]
   \<and> fst (unregister_from_activity ''Chess Club'' ''daniel@mergington.edu''
         (snd (unregister_from_activity ''Chess Club'' ''daniel@mergington.edu''
            (snd (init_db empty_db)))))
       = Inl (HTTPException 400 ''Student is not signed up for this activity'')"
proof -
  have h1: "tables_created (snd (init_db empty_db))" by code_simp
  have h2: "activity_exists ''Chess Club'' (snd (init_db empty_db))" by code_simp
  have h3: "registered ''Chess Club'' ''daniel@mergington.edu'' (snd (init_db empty_db))"
    by code_simp
  have h4: "registrations_unique (snd (init_db empty_db))" by code_simp
  note all = unregister_then_again [OF h1 h2 h3 h4]
  have first: "fst (unregister_from_activity ''Chess Club'' ''daniel@mergington.edu''
         (snd (init_db empty_db)))
       = Inr [(''message'', ''Unregistered daniel@mergington.edu from Chess Club'')]"
    using conjunct1 [OF all] by simp
  have second: "fst (unregister_from_activity ''Chess Club'' ''daniel@mergington.edu''
         (snd (unregister_from_activity ''Chess Club'' ''daniel@mergington.edu''
            (snd (init_db empty_db)))))
       = Inl (HTTPException 400 ''Student is not signed up for this activity'')"
    using conjunct2 [OF conjunct2 [OF conjunct2 [OF all]]] by (simp only: fst_conv)
  from h1 h2 h3 h4 first second show ?thesis by (simp only: simp_thms)
qed

section \<open>Unknown activities\<close>

text \<open>
  Claim C3. For every name \<open>A\<close> that no row of \<^verbatim>\<open>activities\<close> carries and every email
  \<open>e\<close>, both \<open>signup_for_activity A e\<close> and \<open>unregister_from_activity A e\<close> raise
  \<open>HTTPException 404\<close> with detail "Activity not found", and the database is unchanged.
\<close>

theorem unknown_activity_not_found:
  assumes "activities S \<noteq> None" and "\<not> activity_exists A S"
  shows "signup_for_activity A e S = (Inl (HTTPException 404 ''Activity not found''), S)
         \<and> unregister_from_activity A e S =
             (Inl (HTTPException 404 ''Activity not found''), S)"
proof -
  from assms(1) obtain acts where t: "activities S = Some acts" by auto
  with assms(2) have "A \<notin> fst ` set acts"
    by (simp add: activity_exists_def table_rows_def)
  with t show ?thesis
    by (simp add: signup_not_found unregister_not_found)
qed

theorem unknown_activity_not_found_witness:
  "activities (snd (init_db empty_db)) \<noteq> None
   \<and> \<not> activity_exists ''Knitting Club'' (snd (init_db empty_db))
   \<and> signup_for_activity ''Knitting Club'' ''emma@mergington.edu'' (snd (init_db empty_db))
       = (Inl (HTTPException 404 ''Activity not found''), snd (init_db empty_db))
   \<and> unregister_from_activity ''Knitting Club'' ''emma@mergington.edu''
         (snd (init_db empty_db))
       = (Inl (HTTPException 404 ''Activity not found''), snd (init_db empty_db))"
proof -
  have h1: "activities (snd (init_db empty_db)) \<noteq> None" by code_simp
  have h2: "\<not> activity_exists ''Knitting Club'' (snd (init_db empty_db))" by code_simp
  from unknown_activity_not_found [OF h1 h2] h1 h2 show ?thesis
    by (simp only: simp_thms)
qed

section \<open>Signup, then unregister\<close>

text \<open>
  Claim C4. For every database, every activity \<open>A\<close> in it and every email \<open>e\<close> not
  registered for \<open>A\<close>: signing \<open>e\<close> up for \<open>A\<close> and then unregistering \<open>e\<close> from \<open>A\<close>
  succeeds and gives back exactly the database one started from. The registration count of
  \<open>A\<close> goes up by one and returns to its original value.
\<close>

theorem signup_unregister_roundtrip:
  assumes "tables_created S" and "activity_exists A S" and "\<not> registered A e S"
  shows "unregister_from_activity A e (snd (signup_for_activity A e S)) =
           (Inr [(''message'', ''Unregistered '' @ e @ '' from '' @ A)], S)
         \<and> registration_count A (snd (signup_for_activity A e S)) =
             Suc (registration_count A S)
         \<and> registration_count A
             (snd (unregister_from_activity A e (snd (signup_for_activity A e S)))) =
             registration_count A S"
proof -
  from assms(1) obtain acts regs where
    t: "activities S = Some acts" "activity_registrations S = Some regs"
    by (rule tables_createdE)
  from assms(2) t have a: "A \<in> fst ` set acts"
    by (simp add: activity_exists_def table_rows_def)
  from assms(3) t have r: "(A, e) \<notin> set regs"
    by (simp add: registered_def table_rows_def)
  let ?S' = "S\<lparr>activity_registrations := Some (regs @ [(A, e)])\<rparr>"
  have first: "signup_for_activity A e S =
      (Inr [(''message'', ''Signed up '' @ e @ '' for '' @ A)], ?S')"
    using signup_found [OF t(1) a t(2)] r by simp
  have restored: "?S'\<lparr>activity_registrations := Some (removeAll (A, e) (regs @ [(A, e)]))\<rparr> = S"
    using r t by simp
  have second: "unregister_from_activity A e ?S' =
      (Inr [(''message'', ''Unregistered '' @ e @ '' from '' @ A)], S)"
    using unregister_found [of ?S' acts A "regs @ [(A, e)]" e] t(1) a restored by simp
  from first second t show ?thesis
    by (simp add: registration_count_def table_rows_def)
qed

theorem signup_unregister_roundtrip_witness:
  "tables_created (snd (init_db empty_db))
   \<and> activity_exists ''Chess Club'' (snd (init_db empty_db))
   \<and> \<not> registered ''Chess Club'' ''test@mergington.edu'' (snd (init_db empty_db))
   \<and> snd (unregister_from_activity ''Chess Club'' ''test@mergington.edu''
        (snd (signup_for_activity ''Chess Club'' ''test@mergington.edu''
           (snd (init_db empty_db))))) = snd (init_db empty_db)"
proof -
  have h1: "tables_created (snd (init_db empty_db))" by code_simp
  have h2: "activity_exists ''Chess Club'' (snd (init_db empty_db))" by code_simp
  have h3: "\<not> registered ''Chess Club'' ''test@mergington.edu'' (snd (init_db empty_db))"
    by code_simp
  have "snd (unregister_from_activity ''Chess Club'' ''test@mergington.edu''
        (snd (signup_for_activity ''Chess Club'' ''test@mergington.edu''
           (snd (init_db empty_db))))) = snd (init_db empty_db)"
    using conjunct1 [OF signup_unregister_roundtrip [OF h1 h2 h3]] by (simp only: snd_conv)
  with h1 h2 h3 show ?thesis by (simp only: simp_thms)
qed

section \<open>Capacity\<close>

text \<open>
  Claim C8. Capacity is never enforced: for every activity row \<open>(A, d, s, m)\<close> in storage and
  every email \<open>e\<close> not registered for \<open>A\<close>, the signup succeeds and \<open>A\<close> has one
  participant more, whatever \<open>m\<close> (the row's \<^verbatim>\<open>max_participants\<close>) and the current number of
  participants are. The witness signs an eleventh student up for the Math Club, whose
  \<^verbatim>\<open>max_participants\<close> is 10.
\<close>

theorem signup_ignores_capacity:
  assumes "tables_created S"
    and "(A, d, s, m) \<in> set (table_rows (activities S))"
    and "\<not> registered A e S"
  shows "fst (signup_for_activity A e S) =
           Inr [(''message'', ''Signed up '' @ e @ '' for '' @ A)]
         \<and> registration_count A (snd (signup_for_activity A e S)) =
             Suc (registration_count A S)"
proof -
  from assms(1) obtain acts regs where
    t: "activities S = Some acts" "activity_registrations S = Some regs"
    by (rule tables_createdE)
  from assms(2) t have "(A, d, s, m) \<in> set acts"
    by (simp add: table_rows_def)
  then have a: "A \<in> fst ` set acts" by force
  from assms(3) t have r: "(A, e) \<notin> set regs"
    by (simp add: registered_def table_rows_def)
  from signup_found [OF t(1) a t(2)] r t show ?thesis
    by (simp add: registration_count_def table_rows_def)
qed

theorem signup_ignores_capacity_witness:
  "tables_created math_club_full
   \<and> (''Math Club'', ''Solve challenging problems and participate in math competitions'',
        ''Tuesdays, 3:30 PM - 4:30 PM'', 10) \<in> set (table_rows (activities math_club_full))
   \<and> \<not> registered ''Math Club'' ''late@mergington.edu'' math_club_full
   \<and> registration_count ''Math Club'' math_club_full = 10
   \<and> fst (signup_for_activity ''Math Club'' ''late@mergington.edu'' math_club_full) =
       Inr [(''message'', ''Signed up late@mergington.edu for Math Club'')]
   \<and> registration_count ''Math Club''
       (snd (signup_for_activity ''Math Club'' ''late@mergington.edu'' math_club_full)) = 11"
proof -
  have h1: "tables_created math_club_full" by code_simp
  have h2: "(''Math Club'', ''Solve challenging problems and participate in math competitions'',
        ''Tuesdays, 3:30 PM - 4:30 PM'', 10) \<in> set (table_rows (activities math_club_full))"
    by code_simp
  have h3: "\<not> registered ''Math Club'' ''late@mergington.edu'' math_club_full" by code_simp
  have h4: "registration_count ''Math Club'' math_club_full = 10" by code_simp
  note both = signup_ignores_capacity [OF h1 h2 h3]
  have first: "fst (signup_for_activity ''Math Club'' ''late@mergington.edu'' math_club_full) =
       Inr [(''message'', ''Signed up late@mergington.edu for Math Club'')]"
    using conjunct1 [OF both] by simp
  have second: "registration_count ''Math Club''
       (snd (signup_for_activity ''Math Club'' ''late@mergington.edu'' math_club_full)) = 11"
    using conjunct2 [OF both] h4 by simp
  from h1 h2 h3 h4 first second show ?thesis by (simp only: simp_thms)
qed

section \<open>What the statements of the bootstrap keep\<close>

lemma table_rows_create [simp]: "table_rows (create_table_if_not_exists t) = table_rows t"
  by (simp add: table_rows_def create_table_if_not_exists_def split: option.splits)

lemma create_table_Some [simp]: "create_table_if_not_exists (Some rows) = Some rows"
  by (simp add: create_table_if_not_exists_def)

lemma create_table_eq_rows: "create_table_if_not_exists t = Some (table_rows t)"
  by (simp add: table_rows_def create_table_if_not_exists_def split: option.splits)

lemma insert_registration_Inr:
  assumes "insert_registration row c = Inr c'"
  shows "activities c' = activities c"
    and "\<exists>regs. activity_registrations c = Some regs \<and> row \<notin> set regs
           \<and> activity_registrations c' = Some (regs @ [row])"
  using assms by (auto simp: insert_registration_def split: option.splits if_splits)

lemma insert_activity_Inr:
  assumes "insert_activity row c = Inr c'"
  shows "activity_registrations c' = activity_registrations c"
    and "\<exists>acts. activities c = Some acts \<and> fst row \<notin> fst ` set acts
           \<and> activities c' = Some (acts @ [row])"
  using assms by (auto simp: insert_activity_def split: option.splits if_splits)

lemma insert_registration_unique:
  "insert_registration row c = Inr c' \<Longrightarrow> registrations_unique c \<Longrightarrow> registrations_unique c'"
  by (auto simp: registrations_unique_def table_rows_def dest!: insert_registration_Inr(2))

lemma insert_participants_Inr:
  "insert_participants A emails c = Inr c' \<Longrightarrow>
     activities c' = activities c
     \<and> (registrations_unique c \<longrightarrow> registrations_unique c')
     \<and> (activity_registrations c \<noteq> None \<longrightarrow> activity_registrations c' \<noteq> None)"
proof (induction emails arbitrary: c)
  case Nil
  then show ?case by simp
next
  case (Cons email emails)
  from Cons.prems obtain c1 where
    one: "insert_registration (A, email) c = Inr c1" and
    rest: "insert_participants A emails c1 = Inr c'"
    by (auto split: sum.splits)
  from insert_registration_Inr [OF one] insert_registration_unique [OF one] Cons.IH [OF rest]
  show ?case by auto
qed

lemma seed_activities_Inr:
  "seed_activities xs c = Inr c' \<Longrightarrow>
     (\<forall>acts. activities c = Some acts \<longrightarrow>
        activities c' =
          Some (acts @ map (\<lambda>x. (fst x, description (snd x), schedule (snd x),
                                  max_participants (snd x))) xs))
     \<and> (registrations_unique c \<longrightarrow> registrations_unique c')
     \<and> (activity_registrations c \<noteq> None \<longrightarrow> activity_registrations c' \<noteq> None)"
proof (induction xs arbitrary: c)
  case Nil
  then show ?case by simp
next
  case (Cons x xs)
  obtain name a where x: "x = (name, a)" by (cases x)
  from Cons.prems x obtain c1 c2 where
    act: "insert_activity (name, description a, schedule a, max_participants a) c = Inr c1" and
    parts: "insert_participants name (participants a) c1 = Inr c2" and
    rest: "seed_activities xs c2 = Inr c'"
    by (auto split: sum.splits)
  from insert_activity_Inr [OF act] insert_participants_Inr [OF parts] Cons.IH [OF rest] x
  show ?case by (auto simp: registrations_unique_def)
qed

lemma init_db_created:
  "init_db S =
     (let created = \<lparr>activities = Some (table_rows (activities S)),
                     activity_registrations = Some (table_rows (activity_registrations S))\<rparr>
      in if table_rows (activities S) \<noteq> [] then (Inr (), created)
         else (case seed_activities DEFAULT_ACTIVITIES created of
                 Inl e \<Rightarrow> (Inl e, created)
               | Inr seeded \<Rightarrow> (Inr (), seeded)))"
  by (simp add: init_db_def Let_def select_count_activities_def create_table_eq_rows)

lemma init_db_nonempty:
  "activities S = Some acts \<Longrightarrow> acts \<noteq> [] \<Longrightarrow> activity_registrations S = Some regs \<Longrightarrow>
   init_db S = (Inr (), S)"
  by (simp add: init_db_created table_rows_def)

lemma init_db_unique: "registrations_unique S \<Longrightarrow> registrations_unique (snd (init_db S))"
  by (auto simp: init_db_created Let_def registrations_unique_def table_rows_def
      split: sum.splits dest!: seed_activities_Inr)

lemma load_activities_snd: "snd (load_activities S) = S"
  by (simp add: load_activities_def Let_def split: sum.splits)

lemma signup_unique:
  "registrations_unique S \<Longrightarrow> registrations_unique (snd (signup_for_activity A e S))"
  by (auto simp: signup_for_activity_def split: sum.splits option.splits
      dest: insert_registration_unique)

lemma unregister_unique:
  "registrations_unique S \<Longrightarrow> registrations_unique (snd (unregister_from_activity A e S))"
  by (auto simp: unregister_from_activity_def delete_registration_def registrations_unique_def
      table_rows_def split: sum.splits option.splits if_splits)

lemma reachable_unique: "reachable S \<Longrightarrow> registrations_unique S"
proof (induction rule: reachable.induct)
  case reachable_empty
  show ?case by (simp add: registrations_unique_def empty_db_def table_rows_def)
next
  case (reachable_init_db S)
  then show ?case by (simp add: init_db_unique)
next
  case (reachable_get_activities S)
  then show ?case by (simp add: get_activities_def load_activities_snd)
next
  case (reachable_signup S A e)
  then show ?case by (simp add: signup_unique)
next
  case (reachable_unregister S A e)
  then show ?case by (simp add: unregister_unique)
qed

section \<open>The PRIMARY KEY of the registrations\<close>

text \<open>
  Claim C9. Each \<open>(activity_name, email)\<close> pair occurs at most once among the registrations,
  and every operation keeps it so: from a database with this property the bootstrap,
  \<^verbatim>\<open>GET /activities\<close>, signup and unregister each lead to a database with this property, for
  all their arguments and whether they succeed or raise. Every database reachable from the
  empty store by these operations has the property.
\<close>

theorem registrations_unique_invariant:
  "(registrations_unique S \<longrightarrow>
      registrations_unique (snd (init_db S))
      \<and> registrations_unique (snd (get_activities S))
      \<and> registrations_unique (snd (signup_for_activity A e S))
      \<and> registrations_unique (snd (unregister_from_activity A e S)))
   \<and> (reachable S \<longrightarrow> registrations_unique S)"
  by (simp add: init_db_unique get_activities_def load_activities_snd signup_unique
      unregister_unique reachable_unique)

theorem registrations_unique_invariant_witness:
  "reachable (snd (signup_for_activity ''Chess Club'' ''test@mergington.edu''
      (snd (init_db empty_db))))
   \<and> registrations_unique (snd (signup_for_activity ''Chess Club'' ''test@mergington.edu''
      (snd (init_db empty_db))))
   \<and> registrations_unique (snd (signup_for_activity ''Chess Club'' ''test@mergington.edu''
      (snd (signup_for_activity ''Chess Club'' ''test@mergington.edu''
        (snd (init_db empty_db))))))"
proof -
  let ?S = "snd (signup_for_activity ''Chess Club'' ''test@mergington.edu''
      (snd (init_db empty_db)))"
  have r: "reachable ?S"
    by (intro reachable_signup reachable_init_db reachable_empty)
  note inv = registrations_unique_invariant
    [of "?S" "''Chess Club''" "''test@mergington.edu''"]
  from inv r have u: "registrations_unique ?S" by (simp only: simp_thms)
  from inv u have "registrations_unique
      (snd (signup_for_activity ''Chess Club'' ''test@mergington.edu'' ?S))"
    by (simp only: simp_thms)
  with r u show ?thesis by (simp only: simp_thms)
qed

section \<open>Bootstrap\<close>

lemma init_db_seeded_again:
  assumes "seed_activities DEFAULT_ACTIVITIES
             \<lparr>activities = Some [], activity_registrations = Some regs\<rparr> = Inr seeded"
  shows "init_db seeded = (Inr (), seeded)"
proof -
  from seed_activities_Inr [OF assms]
  obtain regs' where "activities seeded \<noteq> None" "table_rows (activities seeded) \<noteq> []"
    "activity_registrations seeded = Some regs'"
    by (auto simp: DEFAULT_ACTIVITIES_def table_rows_def)
  then show ?thesis
    by (auto intro: init_db_nonempty simp: table_rows_def)
qed

lemma init_db_twice: "init_db (snd (init_db S)) = init_db S"
proof (cases "table_rows (activities S) = []")
  case False
  then show ?thesis
    by (simp add: init_db_created table_rows_def)
next
  case True
  let ?created = "\<lparr>activities = Some [],
     activity_registrations = Some (table_rows (activity_registrations S))\<rparr>"
  show ?thesis
  proof (cases "seed_activities DEFAULT_ACTIVITIES ?created")
    case (Inl e)
    with True show ?thesis
      by (simp add: init_db_created table_rows_def)
  next
    case (Inr seeded)
    with True have "init_db S = (Inr (), seeded)"
      by (simp add: init_db_created)
    with init_db_seeded_again [OF Inr] show ?thesis by simp
  qed
qed

lemma init_db_empty_counts:
  "length (table_rows (activities (snd (init_db empty_db)))) = 9"
  "length (table_rows (activity_registrations (snd (init_db empty_db)))) = 18"
  by code_simp+

text \<open>
  Claim C6. The bootstrap is idempotent. From any database, running \<open>init_db\<close> a second time
  returns what the first run returned and the database the first run left. On a database with
  at least one activity row it does not raise and it leaves the rows of both tables as they
  are; when both tables exist it returns the very same database. After the bootstrap of the
  empty store there are 9 activities, after the second run there are still 9, and the number
  of registration rows is the same as after the first run.
\<close>

theorem init_db_idempotent:
  "init_db (snd (init_db S)) = init_db S
   \<and> (table_rows (activities S) \<noteq> [] \<longrightarrow>
        fst (init_db S) = Inr ()
        \<and> table_rows (activities (snd (init_db S))) = table_rows (activities S)
        \<and> table_rows (activity_registrations (snd (init_db S))) =
            table_rows (activity_registrations S))
   \<and> (table_rows (activities S) \<noteq> [] \<and> tables_created S \<longrightarrow> init_db S = (Inr (), S))
   \<and> length (table_rows (activities (snd (init_db empty_db)))) = 9
   \<and> length (table_rows (activities (snd (init_db (snd (init_db empty_db)))))) = 9
   \<and> length (table_rows (activity_registrations (snd (init_db (snd (init_db empty_db)))))) =
       length (table_rows (activity_registrations (snd (init_db empty_db))))"
proof -
  have a: "table_rows (activities S) \<noteq> [] \<Longrightarrow> tables_created S \<Longrightarrow> init_db S = (Inr (), S)"
    by (auto simp: tables_created_def table_rows_def intro: init_db_nonempty)
  have b: "table_rows (activities S) \<noteq> [] \<Longrightarrow>
        fst (init_db S) = Inr ()
        \<and> table_rows (activities (snd (init_db S))) = table_rows (activities S)
        \<and> table_rows (activity_registrations (snd (init_db S))) =
            table_rows (activity_registrations S)"
    by (simp add: init_db_created table_rows_def)
  from a b show ?thesis
    by (simp add: init_db_twice init_db_empty_counts)
qed

theorem init_db_idempotent_witness:
  "table_rows (activities (snd (init_db empty_db))) \<noteq> []
   \<and> tables_created (snd (init_db empty_db))
   \<and> init_db (snd (init_db empty_db)) = (Inr (), snd (init_db empty_db))
   \<and> length (table_rows (activities (snd (init_db (snd (init_db empty_db)))))) = 9"
proof -
  have h1: "table_rows (activities (snd (init_db empty_db))) \<noteq> []" by code_simp
  have h2: "tables_created (snd (init_db empty_db))" by code_simp
  note all = init_db_idempotent [of "snd (init_db empty_db)"]
  from all h1 h2 have "init_db (snd (init_db empty_db)) = (Inr (), snd (init_db empty_db))"
    by (simp only: simp_thms)
  moreover from all have
    "length (table_rows (activities (snd (init_db (snd (init_db empty_db)))))) = 9"
    by (simp only: simp_thms)
  ultimately show ?thesis using h1 h2 by (simp only: simp_thms)
qed

section \<open>The catalog of a fresh store\<close>

text \<open>
  Claim C7, as amended. Starting from the empty store, the bootstrap followed by
  \<^verbatim>\<open>GET /activities\<close> yields exactly 9 entries, in ascending order of name, and the entry
  "Chess Club" has the participant list daniel@mergington.edu, michael@mergington.edu, in that
  order: the read path sorts the registrations by email (\<^verbatim>\<open>ORDER BY activity_name, email\<close>),
  so the order of the seed data is not the order of the response.
\<close>

theorem fresh_catalog:
  "catalog_names (fst (get_activities (snd (init_db empty_db)))) =
     Some [''Art Club'', ''Basketball Team'', ''Chess Club'', ''Debate Team'', ''Drama Club'',
           ''Gym Class'', ''Math Club'', ''Programming Class'', ''Soccer Team'']
   \<and> map_option length (catalog_names (fst (get_activities (snd (init_db empty_db))))) = Some 9
   \<and> participants_of ''Chess Club'' (fst (get_activities (snd (init_db empty_db)))) =
       Some [''daniel@mergington.edu'', ''michael@mergington.edu'']"
  by code_simp

text \<open>
  The claim C7 as the specification states it, with michael@mergington.edu before
  daniel@mergington.edu, is false of the code.
\<close>

theorem fresh_catalog_counterexample:
  "\<not> (map_option length (catalog_names (fst (get_activities (snd (init_db empty_db))))) = Some 9
      \<and> participants_of ''Chess Club'' (fst (get_activities (snd (init_db empty_db)))) =
          Some [''michael@mergington.edu'', ''daniel@mergington.edu''])"
  by code_simp

section \<open>The read path on existing tables\<close>

text \<open>
  The two loops of \<^verbatim>\<open>load_activities\<close>: grouping the ordered registrations by activity, and
  building the catalog from the ordered activity rows.
\<close>

lemma dict_get_setdefault_append:
  "dict_get (setdefault_append d k v) k' [] =
     (if k' = k then dict_get d k [] @ [v] else dict_get d k' [])"
  by (simp add: dict_get_def setdefault_append_def update_conv')

lemma dict_get_grouped:
  "dict_get (foldl (\<lambda>d r. setdefault_append d (fst r) (snd r)) start rs) k [] =
     dict_get start k [] @ map snd (filter (\<lambda>r. fst r = k) rs)"
  by (induction rs arbitrary: start) (auto simp: dict_get_setdefault_append)

lemma dict_get_Nil: "dict_get [] k dflt = dflt"
  by (simp add: dict_get_def)

lemma map_snd_insort_same_fst:
  "\<forall>y \<in> set ys. fst y = a \<Longrightarrow>
   map snd (insort_key (\<lambda>r. (fst r, snd r)) (a, c) ys) = insort c (map snd ys)"
  by (induction ys) auto

lemma map_snd_sort_same_fst:
  "\<forall>r \<in> set rs. fst r = k \<Longrightarrow>
   map snd (sort_key (\<lambda>r. (fst r, snd r)) rs) = sort (map snd rs)"
proof (induction rs)
  case Nil
  show ?case by simp
next
  case (Cons r rs)
  obtain c where r: "r = (k, c)" using Cons.prems by (cases r) auto
  from Cons.prems have all: "\<forall>y \<in> set (sort_key (\<lambda>r. (fst r, snd r)) rs). fst y = k"
    by simp
  from Cons have "map snd (sort_key (\<lambda>r. (fst r, snd r)) rs) = sort (map snd rs)"
    by simp
  with map_snd_insort_same_fst [OF all, of c] r show ?case
    by simp
qed

lemma emails_of_ordered:
  "map snd (filter (\<lambda>r. fst r = k) (sort_key (\<lambda>r. (fst r, snd r)) regs)) =
     sort (map snd (filter (\<lambda>r. fst r = k) regs))"
proof -
  have "\<forall>r \<in> set (filter (\<lambda>r. fst r = k) regs). fst r = k" by simp
  from map_snd_sort_same_fst [OF this] show ?thesis
    by (simp only: filter_sort)
qed

lemma update_fresh_key: "k \<notin> fst ` set d \<Longrightarrow> AList.update k v d = d @ [(k, v)]"
  by (induction d) auto

lemma foldl_update_distinct:
  "distinct (map key rows) \<Longrightarrow> fst ` set start \<inter> key ` set rows = {} \<Longrightarrow>
   foldl (\<lambda>d row. AList.update (key row) (val row) d) start rows =
     start @ map (\<lambda>row. (key row, val row)) rows"
proof (induction rows arbitrary: start)
  case Nil
  show ?case by simp
next
  case (Cons row rows)
  from Cons.prems have fresh: "key row \<notin> fst ` set start" by auto
  from Cons.prems have "distinct (map key rows)"
    and "fst ` set (start @ [(key row, val row)]) \<inter> key ` set rows = {}"
    by auto
  from Cons.IH [OF this] fresh show ?case
    by (simp add: update_fresh_key)
qed

lemma foldl_update_other:
  "k \<notin> key ` set rows \<Longrightarrow>
   map_of (foldl (\<lambda>d row. AList.update (key row) (val row) d) start rows) k = map_of start k"
  by (induction rows arbitrary: start) (auto simp: update_conv')

lemma foldl_update_some:
  "k \<in> key ` set rows \<Longrightarrow>
   \<exists>row \<in> set rows. key row = k \<and>
     map_of (foldl (\<lambda>d row. AList.update (key row) (val row) d) start rows) k = Some (val row)"
proof (induction rows arbitrary: start)
  case Nil
  then show ?case by simp
next
  case (Cons row rows)
  show ?case
  proof (cases "k \<in> key ` set rows")
    case True
    from Cons.IH [OF this] show ?thesis by auto
  next
    case False
    with Cons.prems have "key row = k" by auto
    with False show ?thesis
      by (simp add: foldl_update_other update_conv')
  qed
qed

lemma distinct_map_sort_key: "distinct (map f (sort_key f xs)) = distinct (map f xs)"
  by (induction xs) (auto simp: distinct_insort_key)

lemma map_insort_key: "map f (insort_key f x xs) = insort (f x) (map f xs)"
  by (induction xs) auto

lemma map_sort_key: "map f (sort_key f xs) = sort (map f xs)"
  by (induction xs) (auto simp: map_insort_key)

lemma catalog_step:
  "(\<lambda>d row. case row of (row_name, row_description, row_schedule, row_max) \<Rightarrow>
       AList.update row_name (V row_name row_description row_schedule row_max) d) =
   (\<lambda>d row. AList.update (fst row)
       (V (fst row) (fst (snd row)) (fst (snd (snd row))) (snd (snd (snd row)))) d)"
  by (auto simp: fun_eq_iff)

lemma load_activities_eq:
  assumes "activities S = Some acts" and "activity_registrations S = Some regs"
  shows "load_activities S =
    (Inr (foldl (\<lambda>d row. AList.update (fst row)
                   \<lparr>description = fst (snd row),
                    schedule = fst (snd (snd row)),
                    max_participants = snd (snd (snd row)),
                    participants = sort (map snd (filter (\<lambda>r. fst r = fst row) regs))\<rparr> d)
            [] (sort_key fst acts)), S)"
proof -
  have grouped: "\<And>k. dict_get
      (foldl (\<lambda>d registration. setdefault_append d (fst registration) (snd registration))
         [] (sort_key (\<lambda>r. (fst r, snd r)) regs)) k [] =
      sort (map snd (filter (\<lambda>r. fst r = k) regs))"
    by (simp only: dict_get_grouped dict_get_Nil append_Nil emails_of_ordered)
  show ?thesis
    unfolding load_activities_def select_activities_ordered_def
      select_registrations_ordered_def Let_def
    by (simp only: assms option.case sum.case grouped catalog_step)
qed

lemma load_activities_catalog_view:
  assumes "tables_created S" and "activities_unique S"
  shows "load_activities S = (Inr (catalog_view S), S)"
proof -
  from assms(1) obtain acts regs where
    t: "activities S = Some acts" "activity_registrations S = Some regs"
    by (rule tables_createdE)
  from assms(2) t have "distinct (map fst (sort_key fst acts))"
    by (simp add: activities_unique_def table_rows_def distinct_map_sort_key)
  then show ?thesis
    using t by (simp add: load_activities_eq foldl_update_distinct catalog_view_def table_rows_def)
qed

lemma load_activities_participants:
  assumes "tables_created S" and "activity_exists A S"
  shows "participants_of A (fst (load_activities S)) =
    Some (sort (map snd (filter (\<lambda>r. fst r = A) (table_rows (activity_registrations S)))))"
proof -
  from assms(1) obtain acts regs where
    t: "activities S = Some acts" "activity_registrations S = Some regs"
    by (rule tables_createdE)
  from assms(2) t have "A \<in> fst ` set (sort_key fst acts)"
    by (simp add: activity_exists_def table_rows_def)
  from foldl_update_some [OF this, where start = "[]" and val = "\<lambda>row.
      \<lparr>description = fst (snd row), schedule = fst (snd (snd row)),
       max_participants = snd (snd (snd row)),
       participants = sort (map snd (filter (\<lambda>r. fst r = fst row) regs))\<rparr>"]
  obtain row where "fst row = A"
    and "map_of (foldl (\<lambda>d row. AList.update (fst row)
                   \<lparr>description = fst (snd row),
                    schedule = fst (snd (snd row)),
                    max_participants = snd (snd (snd row)),
                    participants = sort (map snd (filter (\<lambda>r. fst r = fst row) regs))\<rparr> d)
            [] (sort_key fst acts)) A =
      Some \<lparr>description = fst (snd row), schedule = fst (snd (snd row)),
       max_participants = snd (snd (snd row)),
       participants = sort (map snd (filter (\<lambda>r. fst r = fst row) regs))\<rparr>"
    by auto
  with t show ?thesis
    by (simp add: load_activities_eq participants_of_def table_rows_def)
qed

text \<open>
  Claim C5. \<^verbatim>\<open>GET /activities\<close> is a pure read. On a database with both tables whose
  activity names are unique (the PRIMARY KEY of \<^verbatim>\<open>activities\<close>) it returns the database
  unchanged together with the complete catalog \<open>catalog_view\<close>: the names it lists are the
  names of the activity rows in strictly ascending order, and the participant list of every
  activity in storage is the list of the emails registered for it, sorted ascending (the
  empty list when there are none).
\<close>

theorem get_activities_sorted_view:
  assumes "tables_created S" and "activities_unique S"
  shows "get_activities S = (Inr (catalog_view S), S)
    \<and> catalog_names (fst (get_activities S)) =
        Some (sort (map fst (table_rows (activities S))))
    \<and> sorted_wrt (<) (sort (map fst (table_rows (activities S))))
    \<and> (activity_exists A S \<longrightarrow>
         participants_of A (fst (get_activities S)) =
           Some (sort (map snd (filter (\<lambda>r. fst r = A)
                                  (table_rows (activity_registrations S))))))"
proof -
  have view: "get_activities S = (Inr (catalog_view S), S)"
    using assms by (simp add: get_activities_def load_activities_catalog_view)
  have names: "catalog_names (fst (get_activities S)) =
      Some (sort (map fst (table_rows (activities S))))"
    by (simp add: view catalog_names_def catalog_view_def comp_def map_sort_key)
  have strict: "sorted_wrt (<) (sort (map fst (table_rows (activities S))))"
    using assms(2) by (simp add: strict_sorted_iff activities_unique_def)
  from view names strict load_activities_participants [OF assms(1)] show ?thesis
    by (simp add: get_activities_def)
qed

theorem get_activities_sorted_view_witness:
  "tables_created (snd (init_db empty_db))
   \<and> activities_unique (snd (init_db empty_db))
   \<and> activity_exists ''Gym Class'' (snd (init_db empty_db))
   \<and> snd (get_activities (snd (init_db empty_db))) = snd (init_db empty_db)
   \<and> catalog_names (fst (get_activities (snd (init_db empty_db)))) =
       Some [''Art Club'', ''Basketball Team'', ''Chess Club'', ''Debate Team'', ''Drama Club'',
             ''Gym Class'', ''Math Club'', ''Programming Class'', ''Soccer Team'']
   \<and> participants_of ''Gym Class'' (fst (get_activities (snd (init_db empty_db)))) =
       Some [''john@mergington.edu'', ''olivia@mergington.edu'']"
proof -
  let ?S = "snd (init_db empty_db)"
  have h1: "tables_created ?S" by code_simp
  have h2: "activities_unique ?S" by code_simp
  have h3: "activity_exists ''Gym Class'' ?S" by code_simp
  have n: "sort (map fst (table_rows (activities ?S))) =
      [''Art Club'', ''Basketball Team'', ''Chess Club'', ''Debate Team'', ''Drama Club'',
       ''Gym Class'', ''Math Club'', ''Programming Class'', ''Soccer Team'']"
    by code_simp
  have p: "sort (map snd (filter (\<lambda>r. fst r = ''Gym Class'')
      (table_rows (activity_registrations ?S)))) =
      [''john@mergington.edu'', ''olivia@mergington.edu'']"
    by code_simp
  note all = get_activities_sorted_view [OF h1 h2, of "''Gym Class''"]
  have unchanged: "snd (get_activities ?S) = ?S"
    using conjunct1 [OF all] by (simp only: snd_conv)
  have names: "catalog_names (fst (get_activities ?S)) =
       Some [''Art Club'', ''Basketball Team'', ''Chess Club'', ''Debate Team'', ''Drama Club'',
             ''Gym Class'', ''Math Club'', ''Programming Class'', ''Soccer Team'']"
    using conjunct1 [OF conjunct2 [OF all]] n by (simp only:)
  have parts: "participants_of ''Gym Class'' (fst (get_activities ?S)) =
       Some [''john@mergington.edu'', ''olivia@mergington.edu'']"
    using conjunct2 [OF conjunct2 [OF conjunct2 [OF all]]] h3 p by (simp only: simp_thms)
  from h1 h2 h3 unchanged names parts show ?thesis by (simp only: simp_thms)
qed

section \<open>The email argument\<close>

text \<open>
  Claim C10. Signup neither validates nor normalises the email: for every existing activity
  \<open>A\<close> and every string \<open>e\<close> with \<open>(A, e)\<close> not registered, the signup succeeds, the row
  \<open>(A, e)\<close> is stored with \<open>e\<close> as given, and \<open>e\<close> is then among the participants that
  \<^verbatim>\<open>GET /activities\<close> shows for \<open>A\<close>. The witness signs up the empty string and a string that
  is not an email address.
\<close>

theorem signup_stores_email_verbatim:
  assumes "tables_created S" and "activity_exists A S" and "\<not> registered A e S"
  shows "fst (signup_for_activity A e S) =
           Inr [(''message'', ''Signed up '' @ e @ '' for '' @ A)]
    \<and> registered A e (snd (signup_for_activity A e S))
    \<and> (\<exists>emails. participants_of A (fst (get_activities (snd (signup_for_activity A e S)))) =
          Some emails \<and> e \<in> set emails)"
proof -
  from assms(1) obtain acts regs where
    t: "activities S = Some acts" "activity_registrations S = Some regs"
    by (rule tables_createdE)
  from assms(2) t have a: "A \<in> fst ` set acts"
    by (simp add: activity_exists_def table_rows_def)
  from assms(3) t have r: "(A, e) \<notin> set regs"
    by (simp add: registered_def table_rows_def)
  let ?S' = "S\<lparr>activity_registrations := Some (regs @ [(A, e)])\<rparr>"
  have first: "signup_for_activity A e S =
      (Inr [(''message'', ''Signed up '' @ e @ '' for '' @ A)], ?S')"
    using signup_found [OF t(1) a t(2)] r by simp
  have c: "tables_created ?S'" and x: "activity_exists A ?S'"
    using t assms(2) by (simp_all add: tables_created_def activity_exists_def)
  from load_activities_participants [OF c x] first show ?thesis
    by (simp add: get_activities_def registered_def table_rows_def)
qed

theorem signup_stores_email_verbatim_witness:
  "tables_created (snd (init_db empty_db))
   \<and> activity_exists ''Chess Club'' (snd (init_db empty_db))
   \<and> \<not> registered ''Chess Club'' '''' (snd (init_db empty_db))
   \<and> fst (signup_for_activity ''Chess Club'' '''' (snd (init_db empty_db))) =
       Inr [(''message'', ''Signed up  for Chess Club'')]
   \<and> registered ''Chess Club'' '''' (snd (signup_for_activity ''Chess Club'' ''''
       (snd (init_db empty_db))))
   \<and> participants_of ''Chess Club''
       (fst (get_activities (snd (signup_for_activity ''Chess Club'' ''''
          (snd (init_db empty_db)))))) =
       Some ['''', ''daniel@mergington.edu'', ''michael@mergington.edu'']
   \<and> participants_of ''Chess Club''
       (fst (get_activities (snd (signup_for_activity ''Chess Club'' ''not an email''
          (snd (init_db empty_db)))))) =
       Some [''daniel@mergington.edu'', ''michael@mergington.edu'', ''not an email'']"
proof -
  let ?S = "snd (init_db empty_db)"
  have h1: "tables_created ?S" by code_simp
  have h2: "activity_exists ''Chess Club'' ?S" by code_simp
  have h3: "\<not> registered ''Chess Club'' '''' ?S" by code_simp
  note all = signup_stores_email_verbatim [OF h1 h2 h3]
  have first: "fst (signup_for_activity ''Chess Club'' '''' ?S) =
       Inr [(''message'', ''Signed up  for Chess Club'')]"
    using conjunct1 [OF all] by simp
  have stored: "registered ''Chess Club'' '''' (snd (signup_for_activity ''Chess Club'' '''' ?S))"
    using conjunct1 [OF conjunct2 [OF all]] .
  have shown: "participants_of ''Chess Club''
       (fst (get_activities (snd (signup_for_activity ''Chess Club'' '''' ?S)))) =
       Some ['''', ''daniel@mergington.edu'', ''michael@mergington.edu'']"
    by code_simp
  have other: "participants_of ''Chess Club''
       (fst (get_activities (snd (signup_for_activity ''Chess Club'' ''not an email'' ?S)))) =
       Some [''daniel@mergington.edu'', ''michael@mergington.edu'', ''not an email'']"
    by code_simp
  from h1 h2 h3 first stored shown other show ?thesis by (simp only: simp_thms)
qed

end
